theory Spec2Isabelle
  imports Main
begin

section \<open>Dates\<close>

text \<open>
  A \<^verbatim>\<open>datetime.date\<close> is modelled by its proleptic Gregorian ordinal
  (\<^verbatim>\<open>date.toordinal()\<close>): \<^verbatim>\<open>date.min\<close> = 0001-01-01 has ordinal 1 and
  \<^verbatim>\<open>date.max\<close> = 9999-12-31 has ordinal 3652059. Subtracting a
  \<^verbatim>\<open>timedelta(days=k)\<close> raises \<^verbatim>\<open>OverflowError\<close> when the result leaves
  that range.
\<close>

datatype error = OverflowError | IndexError

type_synonym date = int

definition MINORDINAL :: int where
  "MINORDINAL = 1"

definition MAXORDINAL :: int where
  "MAXORDINAL = 3652059"

definition valid_date :: "date \<Rightarrow> bool" where
  "valid_date d = (MINORDINAL \<le> d \<and> d \<le> MAXORDINAL)"

definition date_sub :: "date \<Rightarrow> int \<Rightarrow> error + date" where
  "date_sub d k =
     (let r = d - k
      in if MINORDINAL \<le> r \<and> r \<le> MAXORDINAL then Inr r else Inl OverflowError)"

section \<open>Streak computation\<close>

text \<open>
  \<^verbatim>\<open>
  def get_streak_from_dates(dates_set, today):
      s = 0
      d = today
      while d in dates_set:
          s += 1
          d -= timedelta(days=1)
      return s
  \<close>
  The loop is the function \<open>streak_loop\<close> on the loop variables \<open>s\<close> and \<open>d\<close>.
\<close>

function streak_loop :: "date set \<Rightarrow> nat \<Rightarrow> date \<Rightarrow> error + nat" where
  "streak_loop dates_set s d =
     (if d \<in> dates_set
      then (case date_sub d 1 of
              Inl e \<Rightarrow> Inl e
            | Inr d' \<Rightarrow> streak_loop dates_set (s + 1) d')
      else Inr s)"
  by pat_completeness auto
termination
  by (relation "measure (\<lambda>(dates_set, s, d). nat d)")
     (auto simp: date_sub_def MINORDINAL_def Let_def split: if_splits)

declare streak_loop.simps [simp del]

definition get_streak_from_dates :: "date set \<Rightarrow> date \<Rightarrow> error + nat" where
  "get_streak_from_dates dates_set today = streak_loop dates_set 0 today"


section \<open>Persistence layer\<close>

text \<open>
  The two tables of the schema. A \<^verbatim>\<open>DateTime\<close> is kept as an opaque integer
  time stamp. A table is the list of its rows in insertion order.
\<close>

record Habit =
  h_id :: int
  name :: string
  color :: string
  goal_type :: string
  target_per_day :: int
  created_at :: int

record Checking =
  c_id :: int
  habit_id :: int
  date :: date

record database =
  habits :: "Habit list"
  checkings :: "Checking list"

text \<open>
  The constraints that the schema declares: the two primary keys, \<^verbatim>\<open>unique=True\<close>
  on \<^verbatim>\<open>Habit.name\<close> and the constraint \<^verbatim>\<open>uix_habit_date\<close> on
  \<^verbatim>\<open>(habit_id, date)\<close>. The foreign key of \<^verbatim>\<open>Checking.habit_id\<close> is
  not among them: the application never switches SQLite's foreign key enforcement on.
\<close>

definition checked_pairs :: "database \<Rightarrow> (int \<times> date) list" where
  "checked_pairs db = map (\<lambda>c. (habit_id c, date c)) (checkings db)"

definition constraints :: "database \<Rightarrow> bool" where
  "constraints db =
     (distinct (map h_id (habits db)) \<and> distinct (map name (habits db)) \<and>
      distinct (map c_id (checkings db)) \<and> distinct (checked_pairs db))"

text \<open>
  An \<^verbatim>\<open>INTEGER PRIMARY KEY\<close> column of SQLite that the insert leaves out gets one
  more than the largest key in the table, and 1 in an empty table. (A table whose
  largest key is the last 64-bit integer, where SQLite looks for an unused key, is not
  modelled.)
\<close>

definition next_rowid :: "int list \<Rightarrow> int" where
  "next_rowid ids = (case ids of [] \<Rightarrow> 1 | x # xs \<Rightarrow> fold max xs x + 1)"

text \<open>
  The driver binds signed 64-bit integers only; a larger Python integer in a query
  raises \<^verbatim>\<open>OverflowError\<close> there.
\<close>

definition in_int64 :: "int \<Rightarrow> bool" where
  "in_int64 n = (- (2 ^ 63) \<le> n \<and> n < 2 ^ 63)"

text \<open>
  What \<^verbatim>\<open>db.session.commit()\<close> does with the pending change: it is written, or
  the store raises \<^verbatim>\<open>IntegrityError\<close> for a violated constraint. \<open>OtherError\<close>
  stands for any other exception of the store; the store modelled here never fails
  that way, the handlers keep their branch for it.
\<close>

datatype 'a commit_result = Committed database 'a | IntegrityError | OtherError

definition insert_habit :: "database \<Rightarrow> string \<Rightarrow> string \<Rightarrow> int \<Rightarrow> Habit commit_result" where
  "insert_habit db nm col now =
     (if nm \<in> set (map name (habits db)) then IntegrityError
      else let h = \<lparr>h_id = next_rowid (map h_id (habits db)), name = nm, color = col,
                      goal_type = ''daily'', target_per_day = 1, created_at = now\<rparr>
           in Committed (db\<lparr>habits := habits db @ [h]\<rparr>) h)"

definition update_habit :: "database \<Rightarrow> Habit \<Rightarrow> string \<Rightarrow> string \<Rightarrow> Habit commit_result" where
  "update_habit db h nm col =
     (if nm \<in> set (map name (filter (\<lambda>x. h_id x \<noteq> h_id h) (habits db))) then IntegrityError
      else Committed
             (db\<lparr>habits := map (\<lambda>x. if h_id x = h_id h then x\<lparr>name := nm, color := col\<rparr> else x)
                               (habits db)\<rparr>)
             (h\<lparr>name := nm, color := col\<rparr>))"

text \<open>
  Deleting a habit through the session deletes the rows of its relationship
  \<^verbatim>\<open>Habit.checking\<close> (\<^verbatim>\<open>cascade='all, delete-orphan'\<close>), which are the
  \<^verbatim>\<open>Checking\<close> rows with its id as \<^verbatim>\<open>habit_id\<close>.
\<close>

definition delete_habit_row :: "database \<Rightarrow> Habit \<Rightarrow> unit commit_result" where
  "delete_habit_row db h =
     Committed (db\<lparr>habits := filter (\<lambda>x. h_id x \<noteq> h_id h) (habits db),
                    checkings := filter (\<lambda>c. habit_id c \<noteq> h_id h) (checkings db)\<rparr>) ()"

definition insert_checking :: "database \<Rightarrow> int \<Rightarrow> date \<Rightarrow> Checking commit_result" where
  "insert_checking db hid d =
     (if (hid, d) \<in> set (checked_pairs db) then IntegrityError
      else let c = \<lparr>c_id = next_rowid (map c_id (checkings db)), habit_id = hid, date = d\<rparr>
           in Committed (db\<lparr>checkings := checkings db @ [c]\<rparr>) c)"

definition delete_checking :: "database \<Rightarrow> Checking \<Rightarrow> unit commit_result" where
  "delete_checking db c =
     Committed (db\<lparr>checkings := filter (\<lambda>x. c_id x \<noteq> c_id c) (checkings db)\<rparr>) ()"

section \<open>Weekly aggregation\<close>

text \<open>A list comprehension whose element expression may raise stops at the first raise.\<close>

fun map_result :: "('a \<Rightarrow> error + 'b) \<Rightarrow> 'a list \<Rightarrow> error + 'b list" where
  "map_result f [] = Inr []"
| "map_result f (x # xs) =
     (case f x of
        Inl e \<Rightarrow> Inl e
      | Inr y \<Rightarrow> (case map_result f xs of Inl e \<Rightarrow> Inl e | Inr ys \<Rightarrow> Inr (y # ys)))"

text \<open>
  \<^verbatim>\<open>days = [today - timedelta(days=i) for i in reversed(range(days_window))]\<close>
  The range is empty for a window size below 1. The first element is the one that
  raises, if any does: its day is the earliest, and a \<^verbatim>\<open>timedelta\<close> too large
  to build raises \<^verbatim>\<open>OverflowError\<close> as well.
\<close>

definition window_days :: "date \<Rightarrow> int \<Rightarrow> error + date list" where
  "window_days today days_window =
     map_result (\<lambda>i. date_sub today i) (rev (map int [0..<nat days_window]))"







section \<open>Requests and responses\<close>

text \<open>
  Strings are lists of ASCII characters. \<^verbatim>\<open>str.strip()\<close> removes the
  white space of both ends; the Unicode spaces beyond ASCII are not modelled.
\<close>

definition is_space :: "char \<Rightarrow> bool" where
  "is_space c = (c \<in> set [CHR 0x09, CHR 0x0A, CHR 0x0B, CHR 0x0C, CHR 0x0D,
                            CHR 0x1C, CHR 0x1D, CHR 0x1E, CHR 0x1F, CHR '' ''])"

definition py_strip :: "string \<Rightarrow> string" where
  "py_strip s = rev (dropWhile is_space (rev (dropWhile is_space s)))"

text \<open>A parsed JSON document; numbers are integers (floating point is not modelled).\<close>

datatype json =
    JNull
  | JBool bool
  | JInt int
  | JStr string
  | JList "json list"
  | JObj "(string \<times> json) list"

text \<open>
  The parts of a Flask request that the handlers read: \<^verbatim>\<open>request.form\<close>,
  the body parsed as JSON (if it parses), \<^verbatim>\<open>request.is_json\<close> (the content type
  is JSON) and the header \<^verbatim>\<open>X-Requested-With\<close>.
\<close>

record request =
  form :: "(string \<times> string) list"
  body_json :: "json option"
  is_json :: bool
  x_requested_with :: "string option"

text \<open>A form-encoded request, and a request with a JSON body (its form is empty).\<close>

definition form_request :: "(string \<times> string) list \<Rightarrow> string option \<Rightarrow> request" where
  "form_request kvs xrw =
     \<lparr>form = kvs, body_json = None, is_json = False, x_requested_with = xrw\<rparr>"

definition json_request :: "json \<Rightarrow> string option \<Rightarrow> request" where
  "json_request j xrw =
     \<lparr>form = [], body_json = Some j, is_json = True, x_requested_with = xrw\<rparr>"

text \<open>\<^verbatim>\<open>request.form.get(key, default)\<close>\<close>

definition form_get :: "request \<Rightarrow> string \<Rightarrow> string \<Rightarrow> string" where
  "form_get req k dflt = (case map_of (form req) k of None \<Rightarrow> dflt | Some v \<Rightarrow> v)"

text \<open>\<^verbatim>\<open>request.get_json(silent=True)\<close>\<close>

definition get_json_silent :: "request \<Rightarrow> json option" where
  "get_json_silent req = (if is_json req then body_json req else None)"

text \<open>
  \<^verbatim>\<open>request.is_json or request.headers.get('X-Requested-With') == 'XMLHttpRequest'\<close>
\<close>

definition wants_json :: "request \<Rightarrow> bool" where
  "wants_json req = (is_json req \<or> x_requested_with req = Some ''XMLHttpRequest'')"

datatype response =
    Redirect string
  | Json nat json
  | NotFound
  | InternalServerError

text \<open>
  What a handler leaves behind: the database, the messages it flashed (message and
  category) and its response.
\<close>

record outcome =
  db_after :: database
  flashed :: "(string \<times> string) list"
  resp :: response

section \<open>Habit handlers\<close>

text \<open>
  \<^verbatim>\<open>Habit.query.get_or_404(habit_id)\<close>: the row with that primary key, or the
  not-found response.
\<close>

definition get_or_404 :: "database \<Rightarrow> int \<Rightarrow> response + Habit" where
  "get_or_404 db hid =
     (if \<not> in_int64 hid then Inl InternalServerError
      else case find (\<lambda>h. h_id h = hid) (habits db) of
             None \<Rightarrow> Inl NotFound
           | Some h \<Rightarrow> Inr h)"

definition habit_json :: "Habit \<Rightarrow> json" where
  "habit_json h =
     JObj [(''ok'', JBool True), (''id'', JInt (h_id h)), (''name'', JStr (name h)),
           (''color'', JStr (color h))]"

definition error_json :: "string \<Rightarrow> json" where
  "error_json msg = JObj [(''ok'', JBool False), (''error'', JStr msg)]"

text \<open>
  \<^verbatim>\<open>
  def create_habit():
      name = request.form.get('name', '').strip()
      color = request.form.get('color', '#3b82f6').strip()
      if not name:
          flash('Name is required', 'error')
          return redirect(url_for('habits_page'))
      try:
          habit = Habit(name=name, color=color)
          db.session.add(habit)
          db.session.commit()
          flash('Habit created', 'success')
          if request.is_json or request.headers.get('X-Requested-With') == 'XMLHttpRequest':
              return jsonify({"ok": True, "id": habit.id, "name": habit.name, "color": habit.color})
      except IntegrityError:
          db.session.rollback()
          flash('Habit name must be unique', 'error')
          if request.is_json or request.headers.get('X-Requested-With') == 'XMLHttpRequest':
              return jsonify({"ok": False, "error": "unique"}), 400
      except Exception as e:
          db.session.rollback()
          flash('An error occurred', 'error')
          if request.is_json or request.headers.get('X-Requested-With') == 'XMLHttpRequest':
              return jsonify({"ok": False, "error": "server"}), 500
      return redirect(url_for('habits_page'))
  \<close>
  \<open>now\<close> is the clock \<^verbatim>\<open>datetime.utcnow\<close> of the column default. A rollback
  leaves the database as it was before the request.
\<close>

definition create_habit :: "database \<Rightarrow> request \<Rightarrow> int \<Rightarrow> outcome" where
  "create_habit db req now =
     (let nm = py_strip (form_get req ''name'' '''');
          col = py_strip (form_get req ''color'' ''#3b82f6'')
      in if nm = [] then
           \<lparr>db_after = db, flashed = [(''Name is required'', ''error'')],
            resp = Redirect ''/habits''\<rparr>
         else
           (case insert_habit db nm col now of
              Committed db' h \<Rightarrow>
                \<lparr>db_after = db', flashed = [(''Habit created'', ''success'')],
                 resp = (if wants_json req then Json 200 (habit_json h)
                         else Redirect ''/habits'')\<rparr>
            | IntegrityError \<Rightarrow>
                \<lparr>db_after = db, flashed = [(''Habit name must be unique'', ''error'')],
                 resp = (if wants_json req then Json 400 (error_json ''unique'')
                         else Redirect ''/habits'')\<rparr>
            | OtherError \<Rightarrow>
                \<lparr>db_after = db, flashed = [(''An error occurred'', ''error'')],
                 resp = (if wants_json req then Json 500 (error_json ''server'')
                         else Redirect ''/habits'')\<rparr>))"

text \<open>
  \<^verbatim>\<open>
  def edit_habit(habit_id):
      habit = Habit.query.get_or_404(habit_id)
      name = request.form.get('name', '').strip()
      color = request.form.get('color', '#3b82f6').strip()
      if not name:
          return jsonify({"ok": False, "error": "Name required"}), 400
      habit.name = name
      habit.color = color
      try:
          db.session.commit()
          flash('Habit updated', 'success')
          return jsonify({"ok": True, "id": habit.id, "name": habit.name, "color": habit.color})
      except IntegrityError:
          db.session.rollback()
          return jsonify({"ok": False, "error": "unique"}), 400
      except Exception:
          db.session.rollback()
          return jsonify({"ok": False, "error": "server"}), 500
  \<close>
\<close>

definition edit_habit :: "database \<Rightarrow> request \<Rightarrow> int \<Rightarrow> outcome" where
  "edit_habit db req hid =
     (case get_or_404 db hid of
        Inl r \<Rightarrow> \<lparr>db_after = db, flashed = [], resp = r\<rparr>
      | Inr h \<Rightarrow>
          let nm = py_strip (form_get req ''name'' '''');
              col = py_strip (form_get req ''color'' ''#3b82f6'')
          in if nm = [] then
               \<lparr>db_after = db, flashed = [], resp = Json 400 (error_json ''Name required'')\<rparr>
             else
               (case update_habit db h nm col of
                  Committed db' h' \<Rightarrow>
                    \<lparr>db_after = db', flashed = [(''Habit updated'', ''success'')],
                     resp = Json 200 (habit_json h')\<rparr>
                | IntegrityError \<Rightarrow>
                    \<lparr>db_after = db, flashed = [], resp = Json 400 (error_json ''unique'')\<rparr>
                | OtherError \<Rightarrow>
                    \<lparr>db_after = db, flashed = [], resp = Json 500 (error_json ''server'')\<rparr>))"

text \<open>
  \<^verbatim>\<open>
  def delete_habit(habit_id):
      habit = Habit.query.get_or_404(habit_id)
      try:
          db.session.delete(habit)
          db.session.commit()
          flash("Habit deleted", "success")
          if request.is_json or request.headers.get('X-Requested-With') == 'XMLHttpRequest':
              return jsonify({"ok": True})
      except Exception:
          db.session.rollback()
          flash("Failed to delete habit", "error")
          if request.is_json or request.headers.get('X-Requested-With') == 'XMLHttpRequest':
              return jsonify({"ok": False}), 500
      return redirect(url_for('habits_page'))
  \<close>
\<close>

definition delete_habit :: "database \<Rightarrow> request \<Rightarrow> int \<Rightarrow> outcome" where
  "delete_habit db req hid =
     (case get_or_404 db hid of
        Inl r \<Rightarrow> \<lparr>db_after = db, flashed = [], resp = r\<rparr>
      | Inr h \<Rightarrow>
          (case delete_habit_row db h of
             Committed db' u \<Rightarrow>
               \<lparr>db_after = db', flashed = [(''Habit deleted'', ''success'')],
                resp = (if wants_json req then Json 200 (JObj [(''ok'', JBool True)])
                        else Redirect ''/habits'')\<rparr>
           | IntegrityError \<Rightarrow>
               \<lparr>db_after = db, flashed = [(''Failed to delete habit'', ''error'')],
                resp = (if wants_json req then Json 500 (JObj [(''ok'', JBool False)])
                        else Redirect ''/habits'')\<rparr>
           | OtherError \<Rightarrow>
               \<lparr>db_after = db, flashed = [(''Failed to delete habit'', ''error'')],
                resp = (if wants_json req then Json 500 (JObj [(''ok'', JBool False)])
                        else Redirect ''/habits'')\<rparr>))"

section \<open>Toggle handler\<close>

text \<open>
  \<^verbatim>\<open>data = request.get_json(silent=True) or request.form\<close> picks the JSON
  document when it is truthy and the form otherwise. \<^verbatim>\<open>data.get(key)\<close> is the
  value of the key, \<^verbatim>\<open>None\<close> for a missing key, and raises
  \<^verbatim>\<open>AttributeError\<close> on a document that is not an object; the outer
  \<open>None\<close> below is that raise. An object holds the items of the parsed dictionary.
\<close>

definition truthy :: "json \<Rightarrow> bool" where
  "truthy j =
     (case j of
        JNull \<Rightarrow> False
      | JBool b \<Rightarrow> b
      | JInt n \<Rightarrow> n \<noteq> 0
      | JStr s \<Rightarrow> s \<noteq> []
      | JList xs \<Rightarrow> xs \<noteq> []
      | JObj kvs \<Rightarrow> kvs \<noteq> [])"

definition form_value :: "request \<Rightarrow> string \<Rightarrow> json" where
  "form_value req k = (case map_of (form req) k of None \<Rightarrow> JNull | Some v \<Rightarrow> JStr v)"

definition data_get :: "request \<Rightarrow> string \<Rightarrow> json option" where
  "data_get req k =
     (case get_json_silent req of
        None \<Rightarrow> Some (form_value req k)
      | Some j \<Rightarrow>
          if truthy j then
            (case j of
               JObj kvs \<Rightarrow> Some (case map_of kvs k of None \<Rightarrow> JNull | Some v \<Rightarrow> v)
             | _ \<Rightarrow> None)
          else Some (form_value req k))"

text \<open>
  \<^verbatim>\<open>int(x)\<close>: an integer is itself, a boolean is 0 or 1, a string is stripped and
  read as an optional sign and decimal digits, in groups that single underscores may
  separate; anything else raises (\<open>None\<close>). Digits beyond ASCII and the limit
  that newer Python versions put on the number of digits are not modelled.
\<close>

definition digit_val :: "char \<Rightarrow> int option" where
  "digit_val c =
     map_of [(CHR ''0'', 0), (CHR ''1'', 1), (CHR ''2'', 2), (CHR ''3'', 3), (CHR ''4'', 4),
             (CHR ''5'', 5), (CHR ''6'', 6), (CHR ''7'', 7), (CHR ''8'', 8), (CHR ''9'', 9)] c"

fun digits_val :: "int \<Rightarrow> string \<Rightarrow> int option" where
  "digits_val acc [] = Some acc"
| "digits_val acc (c # cs) =
     (case digit_val c of None \<Rightarrow> None | Some v \<Rightarrow> digits_val (10 * acc + v) cs)"

fun split_on :: "char \<Rightarrow> string \<Rightarrow> string list" where
  "split_on sep [] = [[]]"
| "split_on sep (c # cs) =
     (if c = sep then [] # split_on sep cs
      else (case split_on sep cs of [] \<Rightarrow> [[c]] | g # gs \<Rightarrow> (c # g) # gs))"

definition decimal_literal :: "string \<Rightarrow> int option" where
  "decimal_literal s =
     (let gs = split_on (CHR ''_'') s
      in if list_all (\<lambda>g. g \<noteq> []) gs then digits_val 0 (concat gs) else None)"

definition int_of_string :: "string \<Rightarrow> int option" where
  "int_of_string s =
     (case py_strip s of
        [] \<Rightarrow> None
      | c # cs \<Rightarrow>
          if c = CHR ''-'' then map_option uminus (decimal_literal cs)
          else if c = CHR ''+'' then decimal_literal cs
          else decimal_literal (c # cs))"

definition py_int :: "json \<Rightarrow> int option" where
  "py_int v =
     (case v of
        JInt n \<Rightarrow> Some n
      | JBool b \<Rightarrow> Some (if b then 1 else 0)
      | JStr s \<Rightarrow> int_of_string s
      | _ \<Rightarrow> None)"

text \<open>
  \<^verbatim>\<open>date.fromisoformat\<close> on the form \<^verbatim>\<open>YYYY-MM-DD\<close>, which every Python
  version reads (the further ISO 8601 forms that newer versions read are not modelled);
  the ordinal is computed as \<^verbatim>\<open>datetime\<close> does. A value that is not a string, or
  not a date, raises (\<open>None\<close>).
\<close>

definition is_leap :: "int \<Rightarrow> bool" where
  "is_leap y = (y mod 4 = 0 \<and> (y mod 100 \<noteq> 0 \<or> y mod 400 = 0))"

definition days_before_year :: "int \<Rightarrow> int" where
  "days_before_year y =
     (let y1 = y - 1 in y1 * 365 + y1 div 4 - y1 div 100 + y1 div 400)"

definition days_in_month :: "int \<Rightarrow> int \<Rightarrow> int" where
  "days_in_month y m =
     (if m = 2 then (if is_leap y then 29 else 28)
      else if m = 4 \<or> m = 6 \<or> m = 9 \<or> m = 11 then 30 else 31)"

definition days_before_month :: "int \<Rightarrow> int \<Rightarrow> int" where
  "days_before_month y m =
     [0, 31, 59, 90, 120, 151, 181, 212, 243, 273, 304, 334] ! nat (m - 1) +
     (if m > 2 \<and> is_leap y then 1 else 0)"

definition ymd2ord :: "int \<Rightarrow> int \<Rightarrow> int \<Rightarrow> date" where
  "ymd2ord y m d = days_before_year y + days_before_month y m + d"

definition fromisoformat :: "json \<Rightarrow> date option" where
  "fromisoformat v =
     (case v of
        JStr s \<Rightarrow>
          if length s = 10 \<and> s ! 4 = CHR ''-'' \<and> s ! 7 = CHR ''-'' then
            (case (digits_val 0 (take 4 s), digits_val 0 (take 2 (drop 5 s)),
                   digits_val 0 (drop 8 s)) of
               (Some y, Some m, Some d) \<Rightarrow>
                 if 1 \<le> y \<and> y \<le> 9999 \<and> 1 \<le> m \<and> m \<le> 12 \<and> 1 \<le> d \<and> d \<le> days_in_month y m
                 then Some (ymd2ord y m d) else None
             | _ \<Rightarrow> None)
          else None
      | _ \<Rightarrow> None)"

text \<open>
  The \<^verbatim>\<open>try\<close> block of the handler: both fields, or \<open>None\<close> when anything in
  it raised.
\<close>

definition toggle_payload :: "request \<Rightarrow> (int \<times> date) option" where
  "toggle_payload req =
     (case data_get req ''habit_id'' of
        None \<Rightarrow> None
      | Some v \<Rightarrow>
          (case py_int v of
             None \<Rightarrow> None
           | Some hid \<Rightarrow>
               (case data_get req ''date'' of
                  None \<Rightarrow> None
                | Some w \<Rightarrow>
                    (case fromisoformat w of
                       None \<Rightarrow> None
                     | Some d \<Rightarrow> Some (hid, d)))))"

text \<open>
  The response of a toggle that committed: the streak is computed after the commit, and
  an exception there is not caught.
\<close>

definition toggle_response :: "bool \<Rightarrow> error + nat \<Rightarrow> response" where
  "toggle_response status streak =
     (case streak of
        Inl e \<Rightarrow> InternalServerError
      | Inr s \<Rightarrow>
          Json 200 (JObj [(''ok'', JBool True), (''checked'', JBool status),
                          (''streak'', JInt (int s))]))"

definition habit_dates :: "database \<Rightarrow> int \<Rightarrow> date set" where
  "habit_dates db hid = set (map date (filter (\<lambda>c. habit_id c = hid) (checkings db)))"

text \<open>
  \<^verbatim>\<open>
  def toggle():
      data = request.get_json(silent=True) or request.form
      try:
          hid = int(data.get('habit_id'))
          d = date.fromisoformat(data.get('date'))
      except Exception:
          return jsonify({"ok": False, "error": "invalid_payload"}), 400
      existing = Checking.query.filter_by(habit_id=hid, date=d).first()
      if existing:
          db.session.delete(existing)
          db.session.commit()
          status = False
      else:
          check = Checking(habit_id=hid, date=d)
          db.session.add(check)
          db.session.commit()
          status = True
      dates = {c.date for c in Checking.query.filter_by(habit_id=hid).all()}
      streak = get_streak_from_dates(dates, date.today())
      return jsonify({"ok": True, "checked": status, "streak": streak})
  \<close>
  Nothing catches an exception of the query or of a commit here: the request ends with
  the server error response, and a failed commit writes nothing.
\<close>

definition toggle :: "database \<Rightarrow> request \<Rightarrow> date \<Rightarrow> outcome" where
  "toggle db req today =
     (case toggle_payload req of
        None \<Rightarrow>
          \<lparr>db_after = db, flashed = [], resp = Json 400 (error_json ''invalid_payload'')\<rparr>
      | Some (hid, d) \<Rightarrow>
          if \<not> in_int64 hid then
            \<lparr>db_after = db, flashed = [], resp = InternalServerError\<rparr>
          else
            let existing = find (\<lambda>c. habit_id c = hid \<and> date c = d) (checkings db);
                (committed, status) =
                  (case existing of
                     Some c \<Rightarrow>
                       ((case delete_checking db c of
                           Committed db' u \<Rightarrow> Some db' | _ \<Rightarrow> None), False)
                   | None \<Rightarrow>
                       ((case insert_checking db hid d of
                           Committed db' c \<Rightarrow> Some db' | _ \<Rightarrow> None), True))
            in (case committed of
                  None \<Rightarrow> \<lparr>db_after = db, flashed = [], resp = InternalServerError\<rparr>
                | Some db' \<Rightarrow>
                    \<lparr>db_after = db', flashed = [],
                     resp = toggle_response status
                              (get_streak_from_dates (habit_dates db' hid) today)\<rparr>))"

text \<open>
  The window as the specification words it: the last \<open>n\<close> calendar days ending today,
  oldest first.
\<close>

definition last_days :: "date \<Rightarrow> int \<Rightarrow> date list" where
  "last_days today n = map (\<lambda>k. today - (n - 1) + int k) [0..<nat n]"

section \<open>Example states\<close>

text \<open>
  Ordinal 738886 is Monday 2024-01-01. Two habits, the first checked on the Sunday and
  the Monday, the second on the Sunday.
\<close>

definition db_week :: database where
  "db_week =
     \<lparr>habits =
        [\<lparr>h_id = 1, name = ''Read'', color = ''#3b82f6'', goal_type = ''daily'',
          target_per_day = 1, created_at = 0\<rparr>,
         \<lparr>h_id = 2, name = ''Run'', color = ''#ff0000'', goal_type = ''daily'',
          target_per_day = 1, created_at = 1\<rparr>],
      checkings =
        [\<lparr>c_id = 1, habit_id = 1, date = 738885\<rparr>,
         \<lparr>c_id = 2, habit_id = 2, date = 738885\<rparr>,
         \<lparr>c_id = 3, habit_id = 1, date = 738886\<rparr>]\<rparr>"



section \<open>Properties of the streak computation\<close>



text \<open>
  A run that returns \<open>r\<close> from the counter \<open>s\<close> has seen \<open>r - s\<close> consecutive
  dates of the set, each with a representable day before it, and stopped at an absent
  date.
\<close>

lemma streak_loop_returns:
  "streak_loop D s d = Inr r \<Longrightarrow>
     \<exists>n. r = s + n \<and> (\<forall>k<n. d - int k \<in> D) \<and> d - int n \<notin> D"
proof (induction D s d arbitrary: r rule: streak_loop.induct)
  case (1 D s d)
  show ?case
  proof (cases "d \<in> D")
    case False
    with "1.prems" have "r = s" by (simp add: streak_loop.simps [of D s d])
    with False show ?thesis by (intro exI [of _ 0]) simp
  next
    case True
    from True "1.prems" obtain d' where d': "date_sub d 1 = Inr d'"
      and run: "streak_loop D (s + 1) d' = Inr r"
      by (auto simp: streak_loop.simps [of D s d] split: sum.splits)
    from d' have eq: "d' = d - 1"
      by (auto simp: date_sub_def Let_def split: if_splits)
    from "1.IH" [OF True d' run] obtain n where
      n: "r = s + 1 + n" "\<forall>k<n. d' - int k \<in> D" "d' - int n \<notin> D" by blast
    have "\<forall>k<Suc n. d - int k \<in> D"
    proof (intro allI impI)
      fix k assume "k < Suc n"
      show "d - int k \<in> D"
      proof (cases k)
        case 0
        with True show ?thesis by simp
      next
        case (Suc j)
        with \<open>k < Suc n\<close> have "j < n" by simp
        with n(2) have "d' - int j \<in> D" by blast
        moreover have "d - int k = d' - int j" using eq Suc by simp
        ultimately show ?thesis by (simp only:)
      qed
    qed
    moreover have e2: "d - int (Suc n) = d' - int n" using eq by simp
    from n(3) have "d - int (Suc n) \<notin> D" unfolding e2 .
    moreover from n(1) have "r = s + Suc n" by simp
    ultimately show ?thesis by blast
  qed
qed

lemma streak_loop_returns_valid:
  "streak_loop D s d = Inr r \<Longrightarrow> k < r - s \<Longrightarrow> valid_date (d - int k - 1)"
proof (induction D s d arbitrary: k rule: streak_loop.induct)
  case (1 D s d)
  show ?case
  proof (cases "d \<in> D")
    case False
    with "1.prems" show ?thesis by (simp add: streak_loop.simps [of D s d])
  next
    case True
    from True "1.prems" obtain d' where d': "date_sub d 1 = Inr d'"
      and run: "streak_loop D (s + 1) d' = Inr r"
      by (auto simp: streak_loop.simps [of D s d] split: sum.splits)
    from d' have eq: "d' = d - 1" and v: "valid_date (d - 1)"
      by (auto simp: date_sub_def valid_date_def Let_def split: if_splits)
    show ?thesis
    proof (cases k)
      case 0
      with v show ?thesis by simp
    next
      case (Suc j)
      with "1.prems"(2) have "j < r - (s + 1)" by simp
      from "1.IH" [OF True d' run this] have "valid_date (d' - int j - 1)" .
      moreover have "d - int k - 1 = d' - int j - 1" using eq Suc by simp
      ultimately show ?thesis by (simp only:)
    qed
  qed
qed

text \<open>
  A run that raises has walked down a block of dates of the set to one whose day before
  is not representable.
\<close>

lemma streak_loop_raises:
  "streak_loop D s d = Inl e \<Longrightarrow>
     e = OverflowError \<and>
     (\<exists>m. m \<in> D \<and> m \<le> d \<and> \<not> valid_date (m - 1) \<and> (\<forall>k. m \<le> k \<and> k \<le> d \<longrightarrow> k \<in> D))"
proof (induction D s d rule: streak_loop.induct)
  case (1 D s d)
  from "1.prems" have True: "d \<in> D"
    by (auto simp: streak_loop.simps [of D s d] split: if_splits)
  show ?case
  proof (cases "date_sub d 1")
    case (Inl e')
    with True "1.prems" have "e = e'" by (simp add: streak_loop.simps [of D s d])
    moreover from Inl have "e' = OverflowError" "\<not> valid_date (d - 1)"
      by (auto simp: date_sub_def valid_date_def Let_def split: if_splits)
    ultimately show ?thesis using True by (intro conjI exI [of _ d]) auto
  next
    case (Inr d')
    with True "1.prems" have run: "streak_loop D (s + 1) d' = Inl e"
      by (simp add: streak_loop.simps [of D s d])
    from Inr have eq: "d' = d - 1"
      by (auto simp: date_sub_def Let_def split: if_splits)
    from "1.IH" [OF True Inr run] obtain m where
      m: "e = OverflowError" "m \<in> D" "m \<le> d'" "\<not> valid_date (m - 1)"
         "\<forall>k. m \<le> k \<and> k \<le> d' \<longrightarrow> k \<in> D" by blast
    have "\<forall>k. m \<le> k \<and> k \<le> d \<longrightarrow> k \<in> D"
    proof (intro allI impI)
      fix k assume k: "m \<le> k \<and> k \<le> d"
      show "k \<in> D"
      proof (cases "k = d")
        case True
        with \<open>d \<in> D\<close> show ?thesis by simp
      next
        case False
        with k eq have "m \<le> k \<and> k \<le> d'" by simp
        with m(5) show ?thesis by blast
      qed
    qed
    with m eq show ?thesis by (intro conjI exI [of _ m]) auto
  qed
qed

lemma run_le_card:
  assumes "finite D" and "\<forall>k<n. d - int k \<in> D"
  shows "n \<le> card D"
proof -
  have "inj_on (\<lambda>k. d - int k) {..<n}" by (auto simp: inj_on_def)
  then have "card ((\<lambda>k. d - int k) ` {..<n}) = n" by (simp add: card_image)
  moreover have "(\<lambda>k. d - int k) ` {..<n} \<subseteq> D" using assms(2) by auto
  ultimately show ?thesis using card_mono [OF assms(1)] by metis
qed

lemmas streak_eval =
  get_streak_from_dates_def streak_loop.simps date_sub_def MINORDINAL_def MAXORDINAL_def


text \<open>
  Claim C10, as stated: the streak computation returns a count of at most the cardinality
  of the set, for every set and date. It does not at the set that holds \<^verbatim>\<open>date.min\<close>
  alone, with \<^verbatim>\<open>date.min\<close> as the reference date: the walk steps below
  \<^verbatim>\<open>date.min\<close> and raises.
\<close>

theorem C10_counterexample:
  "get_streak_from_dates {1} 1 = Inl OverflowError"
  by (simp add: streak_eval)

text \<open>
  Claim C10, amended. For every set \<open>D\<close> of dates and every reference date \<open>T\<close> the streak
  computation terminates. It returns a count that is at most the cardinality of \<open>D\<close>,
  except when \<open>D\<close> holds every date from \<^verbatim>\<open>date.min\<close> to \<open>T\<close>: then it raises
  \<^verbatim>\<open>OverflowError\<close> and returns nothing.
\<close>

theorem C10_streak_terminates_bounded:
  assumes "\<forall>d\<in>D. valid_date d"
  shows "if MINORDINAL \<le> T \<and> {MINORDINAL..T} \<subseteq> D
         then get_streak_from_dates D T = Inl OverflowError
         else \<exists>n. get_streak_from_dates D T = Inr n \<and> n \<le> card D"
proof -
  have fin: "finite D"
  proof (rule finite_subset)
    show "D \<subseteq> {MINORDINAL..MAXORDINAL}" using assms by (auto simp: valid_date_def)
  qed simp
  show ?thesis
  proof (cases "get_streak_from_dates D T")
    case (Inl e)
    then have "streak_loop D 0 T = Inl e" by (simp add: get_streak_from_dates_def)
    from streak_loop_raises [OF this] obtain m where
      m: "e = OverflowError" "m \<in> D" "m \<le> T" "\<not> valid_date (m - 1)"
         "\<forall>k. m \<le> k \<and> k \<le> T \<longrightarrow> k \<in> D" by blast
    from m(2) assms have "valid_date m" by blast
    with m(4) have "m = MINORDINAL" by (auto simp: valid_date_def)
    with m Inl show ?thesis by auto
  next
    case (Inr n)
    then have run: "streak_loop D 0 T = Inr n" by (simp add: get_streak_from_dates_def)
    from streak_loop_returns [OF run] have
      mem: "\<forall>k<n. T - int k \<in> D" and out: "T - int n \<notin> D" by auto
    have "\<not> (MINORDINAL \<le> T \<and> {MINORDINAL..T} \<subseteq> D)"
    proof
      assume full: "MINORDINAL \<le> T \<and> {MINORDINAL..T} \<subseteq> D"
      then have "T \<in> D" by auto
      with out have "n \<noteq> 0" by (cases n) auto
      then have "n - 1 < n - 0" by simp
      from streak_loop_returns_valid [OF run this]
      have "valid_date (T - int (n - 1) - 1)" .
      moreover have "T - int (n - 1) - 1 = T - int n" using \<open>n \<noteq> 0\<close> by simp
      ultimately have "MINORDINAL \<le> T - int n" by (simp add: valid_date_def)
      with full have "T - int n \<in> D" by auto
      with out show False by simp
    qed
    moreover have "n \<le> card D" using run_le_card [OF fin mem] .
    ultimately show ?thesis using Inr by simp
  qed
qed

theorem C10_streak_terminates_bounded_witness:
  "valid_date 738884 \<and> valid_date 738885 \<and> valid_date 738886 \<and>
   get_streak_from_dates {738884, 738885, 738886} 738886 = Inr 3 \<and>
   3 \<le> card {738884, 738885, 738886 :: int}"
proof -
  have v: "\<forall>d\<in>{738884, 738885, 738886}. valid_date d"
    by (simp add: valid_date_def MINORDINAL_def MAXORDINAL_def)
  have "(1::int) \<in> {MINORDINAL..738886}" "(1::int) \<notin> {738884, 738885, 738886}"
    by (simp_all add: MINORDINAL_def)
  then have "\<not> (MINORDINAL \<le> 738886 \<and> {MINORDINAL..738886} \<subseteq> {738884, 738885, 738886})"
    by blast
  with C10_streak_terminates_bounded [OF v, of 738886]
  obtain n where n: "get_streak_from_dates {738884, 738885, 738886} 738886 = Inr n"
    and le: "n \<le> card {738884, 738885, 738886 :: int}" by auto
  have "get_streak_from_dates {738884, 738885, 738886} 738886 = Inr 3"
    by (simp add: streak_eval)
  with n le v show ?thesis by simp
qed

section \<open>Properties of the weekly aggregation\<close>




lemma window_days_empty: "n \<le> 0 \<Longrightarrow> window_days today n = Inr []"
  by (simp add: window_days_def)



lemma last_days_last: "1 \<le> n \<Longrightarrow> last (last_days today n) = today"
  by (cases "nat n") (auto simp: last_days_def last_map)















text \<open>
  Where every \<^verbatim>\<open>Checking\<close> row belongs to a habit, the distinct \<open>habit_id\<close>s of a
  day are as many as the habits with a row for that day.
\<close>

lemma distinct_habits_are_habit_rows:
  assumes "distinct (map h_id (habits db))"
    and "\<forall>c\<in>set (checkings db). habit_id c \<in> set (map h_id (habits db))"
  shows "card (habit_id ` {c \<in> set (checkings db). date c = day})
           = length (filter (\<lambda>h. (h_id h, day) \<in> set (checked_pairs db)) (habits db))"
proof -
  let ?hs = "filter (\<lambda>h. (h_id h, day) \<in> set (checked_pairs db)) (habits db)"
  have "habit_id ` {c \<in> set (checkings db). date c = day} = set (map h_id ?hs)"
    using assms(2) by (auto simp: checked_pairs_def image_iff) force
  moreover have "distinct (map h_id ?hs)"
    using assms(1) by (rule distinct_map_filter)
  ultimately show ?thesis
    using distinct_card [of "map h_id ?hs"] by simp
qed

section \<open>Properties of the habit handlers\<close>

lemma get_or_404_found:
  assumes "get_or_404 db hid = Inr H"
  shows "in_int64 hid" and "find (\<lambda>h. h_id h = hid) (habits db) = Some H" and "h_id H = hid"
proof -
  from assms show a: "in_int64 hid" and b: "find (\<lambda>h. h_id h = hid) (habits db) = Some H"
    by (auto simp: get_or_404_def split: if_splits option.splits)
  from b show "h_id H = hid" by (auto simp: find_Some_iff)
qed

text \<open>
  Claim C5. In every database state that holds a habit with the name \<open>N\<close>, a
  create-habit request with the name \<open>N\<close> fails with the error that tells a name that
  is not unique from the other failures (the flashed message, and the JSON error
  \<^verbatim>\<open>unique\<close> with status 400 where the request wants JSON), the transaction is
  rolled back, and the number of habits is unchanged. The name of the request is the
  field \<^verbatim>\<open>name\<close> of its form, stripped, as the handler reads it; a name of a habit
  is not empty.
\<close>

theorem C5_duplicate_name_rejected:
  assumes "py_strip (form_get req ''name'' '''') = N" and "N \<noteq> []"
    and "N \<in> set (map name (habits db))"
  shows "create_habit db req now =
           \<lparr>db_after = db, flashed = [(''Habit name must be unique'', ''error'')],
            resp = (if wants_json req then Json 400 (error_json ''unique'')
                    else Redirect ''/habits'')\<rparr>
         \<and> length (habits (db_after (create_habit db req now))) = length (habits db)"
proof -
  from assms(3) have "insert_habit db N (py_strip (form_get req ''color'' ''#3b82f6'')) now
                        = IntegrityError"
    by (simp add: insert_habit_def)
  with assms(1,2) show ?thesis by (simp add: create_habit_def Let_def)
qed

theorem C5_duplicate_name_rejected_witness:
  "py_strip (form_get (form_request [(''name'', '' Read ''), (''color'', ''#000000'')]
                         (Some ''XMLHttpRequest'')) ''name'' '''') = ''Read'' \<and>
   ''Read'' \<noteq> [] \<and> ''Read'' \<in> set (map name (habits db_week)) \<and>
   create_habit db_week
     (form_request [(''name'', '' Read ''), (''color'', ''#000000'')] (Some ''XMLHttpRequest'')) 5 =
     \<lparr>db_after = db_week, flashed = [(''Habit name must be unique'', ''error'')],
      resp = Json 400 (JObj [(''ok'', JBool False), (''error'', JStr ''unique'')])\<rparr>"
proof -
  let ?req = "form_request [(''name'', '' Read ''), (''color'', ''#000000'')] (Some ''XMLHttpRequest'')"
  have a: "py_strip (form_get ?req ''name'' '''') = ''Read''"
    by (simp add: form_get_def form_request_def py_strip_def is_space_def)
  have b: "''Read'' \<noteq> []" by simp
  have c: "''Read'' \<in> set (map name (habits db_week))" by (simp add: db_week_def)
  have w: "wants_json ?req" by (simp add: wants_json_def form_request_def)
  from C5_duplicate_name_rejected [OF a b c, of 5] a b c w show ?thesis
    by (simp add: error_json_def)
qed

text \<open>
  Claim C6. For every habit that the delete handler finds, the delete succeeds, and
  afterwards no \<^verbatim>\<open>Checking\<close> row has the id of the habit as its
  \<open>habit_id\<close>: the rows of the habit are removed, the other rows stay, and
  the habit is gone.
\<close>

theorem C6_delete_removes_checkings:
  assumes "get_or_404 db hid = Inr H"
  shows "hid \<notin> set (map habit_id (checkings (db_after (delete_habit db req hid)))) \<and>
         checkings (db_after (delete_habit db req hid))
           = filter (\<lambda>c. habit_id c \<noteq> hid) (checkings db) \<and>
         hid \<notin> set (map h_id (habits (db_after (delete_habit db req hid)))) \<and>
         resp (delete_habit db req hid)
           = (if wants_json req then Json 200 (JObj [(''ok'', JBool True)])
              else Redirect ''/habits'')"
proof -
  from get_or_404_found(3) [OF assms] have "h_id H = hid" .
  with assms show ?thesis
    by (auto simp: delete_habit_def delete_habit_row_def)
qed

theorem C6_delete_removes_checkings_witness:
  "get_or_404 db_week 1 = Inr \<lparr>h_id = 1, name = ''Read'', color = ''#3b82f6'',
      goal_type = ''daily'', target_per_day = 1, created_at = 0\<rparr> \<and>
   checkings (db_after (delete_habit db_week (form_request [] None) 1))
     = [\<lparr>c_id = 2, habit_id = 2, date = 738885\<rparr>] \<and>
   1 \<notin> set (map habit_id (checkings (db_after (delete_habit db_week (form_request [] None) 1))))"
proof -
  have g: "get_or_404 db_week 1 = Inr \<lparr>h_id = 1, name = ''Read'', color = ''#3b82f6'',
      goal_type = ''daily'', target_per_day = 1, created_at = 0\<rparr>"
    by (simp add: get_or_404_def db_week_def in_int64_def)
  from C6_delete_removes_checkings [OF g, of "form_request [] None"] g show ?thesis
    by (simp add: db_week_def)
qed

text \<open>
  Claim C8. For every habit that the edit handler finds, an edit that succeeds (status
  200) changes the name and the colour of that habit and nothing else: the id, the goal
  type, the target per day and the creation time of every habit, every other habit as a
  whole, and all \<^verbatim>\<open>Checking\<close> rows are as they were.
\<close>

theorem C8_edit_changes_name_and_color_only:
  assumes "get_or_404 db hid = Inr H"
    and "resp (edit_habit db req hid) = Json 200 body"
  shows "checkings (db_after (edit_habit db req hid)) = checkings db \<and>
         habits (db_after (edit_habit db req hid))
           = map (\<lambda>h. if h_id h = hid
                       then h\<lparr>name := py_strip (form_get req ''name'' ''''),
                              color := py_strip (form_get req ''color'' ''#3b82f6'')\<rparr>
                       else h) (habits db) \<and>
         map h_id (habits (db_after (edit_habit db req hid))) = map h_id (habits db) \<and>
         map goal_type (habits (db_after (edit_habit db req hid))) = map goal_type (habits db) \<and>
         map target_per_day (habits (db_after (edit_habit db req hid)))
           = map target_per_day (habits db) \<and>
         map created_at (habits (db_after (edit_habit db req hid))) = map created_at (habits db) \<and>
         filter (\<lambda>h. h_id h \<noteq> hid) (habits (db_after (edit_habit db req hid)))
           = filter (\<lambda>h. h_id h \<noteq> hid) (habits db)"
proof -
  let ?nm = "py_strip (form_get req ''name'' '''')"
  let ?col = "py_strip (form_get req ''color'' ''#3b82f6'')"
  let ?upd = "\<lambda>h. if h_id h = hid then h\<lparr>name := ?nm, color := ?col\<rparr> else h"
  from get_or_404_found(3) [OF assms(1)] have id: "h_id H = hid" .
  from assms have ne: "?nm \<noteq> []"
    by (auto simp: edit_habit_def Let_def error_json_def split: if_splits)
  with assms have "update_habit db H ?nm ?col \<noteq> IntegrityError"
    by (auto simp: edit_habit_def Let_def)
  then have db': "db_after (edit_habit db req hid) = db\<lparr>habits := map ?upd (habits db)\<rparr>"
    using assms(1) ne id
    by (auto simp: edit_habit_def update_habit_def Let_def split: if_splits)
  have "filter (\<lambda>h. h_id h \<noteq> hid) (map ?upd xs) = filter (\<lambda>h. h_id h \<noteq> hid) xs" for xs
    by (induction xs) auto
  then show ?thesis unfolding db' by (simp add: comp_def)
qed

theorem C8_edit_changes_name_and_color_only_witness:
  "get_or_404 db_week 1 = Inr \<lparr>h_id = 1, name = ''Read'', color = ''#3b82f6'',
      goal_type = ''daily'', target_per_day = 1, created_at = 0\<rparr> \<and>
   resp (edit_habit db_week
           (form_request [(''name'', ''Read more''), (''color'', ''#00ff00'')] None) 1)
     = Json 200 (JObj [(''ok'', JBool True), (''id'', JInt 1), (''name'', JStr ''Read more''),
                       (''color'', JStr ''#00ff00'')]) \<and>
   checkings (db_after (edit_habit db_week
           (form_request [(''name'', ''Read more''), (''color'', ''#00ff00'')] None) 1))
     = checkings db_week \<and>
   habits (db_after (edit_habit db_week
           (form_request [(''name'', ''Read more''), (''color'', ''#00ff00'')] None) 1))
     = [\<lparr>h_id = 1, name = ''Read more'', color = ''#00ff00'', goal_type = ''daily'',
          target_per_day = 1, created_at = 0\<rparr>,
        \<lparr>h_id = 2, name = ''Run'', color = ''#ff0000'', goal_type = ''daily'',
          target_per_day = 1, created_at = 1\<rparr>]"
proof -
  let ?req = "form_request [(''name'', ''Read more''), (''color'', ''#00ff00'')] None"
  have g: "get_or_404 db_week 1 = Inr \<lparr>h_id = 1, name = ''Read'', color = ''#3b82f6'',
      goal_type = ''daily'', target_per_day = 1, created_at = 0\<rparr>"
    by (simp add: get_or_404_def db_week_def in_int64_def)
  have nm: "py_strip (form_get ?req ''name'' '''') = ''Read more''"
    by (simp add: form_get_def form_request_def py_strip_def is_space_def)
  have col: "py_strip (form_get ?req ''color'' ''#3b82f6'') = ''#00ff00''"
    by (simp add: form_get_def form_request_def py_strip_def is_space_def)
  have r: "resp (edit_habit db_week ?req 1)
     = Json 200 (JObj [(''ok'', JBool True), (''id'', JInt 1), (''name'', JStr ''Read more''),
                       (''color'', JStr ''#00ff00'')])"
    by code_simp
  from C8_edit_changes_name_and_color_only [OF g r] g r nm col show ?thesis
    by (simp add: db_week_def)
qed

section \<open>Properties of the toggle handler\<close>

lemma find_pair_None:
  "find (\<lambda>c. habit_id c = hid \<and> date c = d) (checkings db) = None
     \<longleftrightarrow> (hid, d) \<notin> set (checked_pairs db)"
  by (auto simp: find_None_iff checked_pairs_def image_iff)

lemma find_pair_Some:
  assumes "find (\<lambda>c. habit_id c = hid \<and> date c = d) (checkings db) = Some c"
  shows "c \<in> set (checkings db)" and "habit_id c = hid" and "date c = d"
  using assms by (auto simp: find_Some_iff)

lemma delete_by_id_is_delete_by_pair:
  assumes "distinct (map c_id cs)" and "distinct (map (\<lambda>c. (habit_id c, date c)) cs)"
    and "c \<in> set cs"
  shows "filter (\<lambda>x. c_id x \<noteq> c_id c) cs
           = filter (\<lambda>x. (habit_id x, date x) \<noteq> (habit_id c, date c)) cs"
proof (rule filter_cong [OF refl])
  fix x assume x: "x \<in> set cs"
  from assms(1) have i1: "inj_on c_id (set cs)" by (simp add: distinct_map)
  from assms(2) have i2: "inj_on (\<lambda>c. (habit_id c, date c)) (set cs)" by (simp add: distinct_map)
  from i1 x assms(3) have "c_id x = c_id c \<longleftrightarrow> x = c" by (auto dest: inj_onD)
  moreover from i2 x assms(3) have "(habit_id x, date x) = (habit_id c, date c) \<longleftrightarrow> x = c"
    by (auto dest: inj_onD)
  ultimately show "(c_id x \<noteq> c_id c) = ((habit_id x, date x) \<noteq> (habit_id c, date c))"
    by simp
qed

lemma toggle_absent:
  assumes "toggle_payload req = Some (hid, d)" and "in_int64 hid"
    and "(hid, d) \<notin> set (checked_pairs db)"
  shows "toggle db req today =
           \<lparr>db_after = db\<lparr>checkings := checkings db @
                [\<lparr>c_id = next_rowid (map c_id (checkings db)), habit_id = hid, date = d\<rparr>]\<rparr>,
            flashed = [],
            resp = toggle_response True
                     (get_streak_from_dates
                        (habit_dates (db\<lparr>checkings := checkings db @
                           [\<lparr>c_id = next_rowid (map c_id (checkings db)), habit_id = hid,
                             date = d\<rparr>]\<rparr>) hid) today)\<rparr>"
proof -
  from assms(3) have "find (\<lambda>c. habit_id c = hid \<and> date c = d) (checkings db) = None"
    by (simp add: find_pair_None)
  with assms show ?thesis
    by (simp add: toggle_def insert_checking_def Let_def)
qed

lemma toggle_present:
  assumes "toggle_payload req = Some (hid, d)" and "in_int64 hid" and "constraints db"
    and "(hid, d) \<in> set (checked_pairs db)"
  shows "toggle db req today =
           \<lparr>db_after = db\<lparr>checkings :=
                filter (\<lambda>c. (habit_id c, date c) \<noteq> (hid, d)) (checkings db)\<rparr>,
            flashed = [],
            resp = toggle_response False
                     (get_streak_from_dates
                        (habit_dates (db\<lparr>checkings :=
                           filter (\<lambda>c. (habit_id c, date c) \<noteq> (hid, d)) (checkings db)\<rparr>) hid)
                        today)\<rparr>"
proof -
  from assms(4) obtain c where
    c: "find (\<lambda>c. habit_id c = hid \<and> date c = d) (checkings db) = Some c"
    using find_pair_None [of hid d db] by (cases "find (\<lambda>c. habit_id c = hid \<and> date c = d) (checkings db)") auto
  note cs = find_pair_Some [OF c]
  from assms(3) have "distinct (map c_id (checkings db))"
    and "distinct (map (\<lambda>c. (habit_id c, date c)) (checkings db))"
    by (simp_all add: constraints_def checked_pairs_def)
  from delete_by_id_is_delete_by_pair [OF this cs(1)] cs(2,3)
  have "filter (\<lambda>x. c_id x \<noteq> c_id c) (checkings db)
          = filter (\<lambda>c. (habit_id c, date c) \<noteq> (hid, d)) (checkings db)" by simp
  with assms(1,2) c show ?thesis
    by (simp add: toggle_def delete_checking_def Let_def)
qed

lemma next_rowid_fresh: "next_rowid ids \<notin> set ids"
proof (cases ids)
  case Nil
  then show ?thesis by simp
next
  case (Cons x xs)
  have m: "fold max xs x = Max (set (x # xs))" by (rule Max.set_eq_fold [symmetric])
  show ?thesis
  proof
    assume "next_rowid ids \<in> set ids"
    with Cons m have "Max (set (x # xs)) + 1 \<in> set (x # xs)"
      by (simp add: next_rowid_def)
    then have "Max (set (x # xs)) + 1 \<le> Max (set (x # xs))" by (intro Max_ge) simp_all
    then show False by simp
  qed
qed

lemma constraints_insert:
  assumes "constraints db" and "(hid, d) \<notin> set (checked_pairs db)"
  shows "constraints (db\<lparr>checkings := checkings db @
            [\<lparr>c_id = next_rowid (map c_id (checkings db)), habit_id = hid, date = d\<rparr>]\<rparr>)"
  using assms next_rowid_fresh [of "map c_id (checkings db)"]
  by (simp add: constraints_def checked_pairs_def)

lemma constraints_filter:
  assumes "constraints db"
  shows "constraints (db\<lparr>checkings := filter P (checkings db)\<rparr>)"
  using assms by (simp add: constraints_def checked_pairs_def distinct_map_filter)












section \<open>Body encodings\<close>

lemma create_habit_json_body:
  "create_habit db (json_request j xrw) now =
     \<lparr>db_after = db, flashed = [(''Name is required'', ''error'')], resp = Redirect ''/habits''\<rparr>"
  by (simp add: create_habit_def json_request_def form_get_def py_strip_def)

lemma edit_habit_json_body:
  "get_or_404 db hid = Inr H \<Longrightarrow>
   edit_habit db (json_request j xrw) hid =
     \<lparr>db_after = db, flashed = [], resp = Json 400 (error_json ''Name required'')\<rparr>"
  by (simp add: edit_habit_def json_request_def form_get_def py_strip_def)

lemma data_get_json_form:
  "data_get (json_request (JObj (map (\<lambda>(k, v). (k, JStr v)) kvs)) xrw) k
     = data_get (form_request kvs xrw) k"
proof -
  have "map_of (map (\<lambda>(k, v). (k, JStr v)) kvs) k = map_option JStr (map_of kvs k)"
    by (induction kvs) auto
  then show ?thesis
    by (cases kvs)
       (auto simp: data_get_def get_json_silent_def json_request_def form_request_def
          truthy_def form_value_def split: option.splits)
qed

lemma toggle_json_form:
  "toggle db (json_request (JObj (map (\<lambda>(k, v). (k, JStr v)) kvs)) xrw) today
     = toggle db (form_request kvs xrw) today"
  unfolding toggle_def toggle_payload_def data_get_json_form ..

text \<open>
  Claim C4 says that the mutation endpoints take their fields from a JSON body as from
  a form. The toggle handler does (\<open>toggle_json_form\<close>). The create and edit handlers
  read \<^verbatim>\<open>request.form\<close> only, which is empty for a JSON body, so the name of a
  JSON request is always missing (\<open>create_habit_json_body\<close>,
  \<open>edit_habit_json_body\<close>): the test \<^verbatim>\<open>request.is_json\<close> in the create handler
  is never reached with a JSON request. The code at the failing input: the same fields
  create the habit when sent as a form, and are refused when sent as JSON.
\<close>

theorem C4_create_ignores_json_body:
  "create_habit db_week
     (json_request (JObj [(''name'', JStr ''Swim''), (''color'', JStr ''#00ff00'')]) None) 9
     = \<lparr>db_after = db_week, flashed = [(''Name is required'', ''error'')],
        resp = Redirect ''/habits''\<rparr> \<and>
   create_habit db_week (form_request [(''name'', ''Swim''), (''color'', ''#00ff00'')] None) 9
     = \<lparr>db_after = db_week\<lparr>habits := habits db_week @
          [\<lparr>h_id = 3, name = ''Swim'', color = ''#00ff00'', goal_type = ''daily'',
            target_per_day = 1, created_at = 9\<rparr>]\<rparr>,
        flashed = [(''Habit created'', ''success'')], resp = Redirect ''/habits''\<rparr> \<and>
   edit_habit db_week
     (json_request (JObj [(''name'', JStr ''Swim''), (''color'', JStr ''#00ff00'')]) None) 1
     = \<lparr>db_after = db_week, flashed = [],
        resp = Json 400 (JObj [(''ok'', JBool False), (''error'', JStr ''Name required'')])\<rparr>"
  by code_simp

section \<open>The constraints of the schema are kept by every handler\<close>

lemma constraints_create_habit:
  assumes "constraints db"
  shows "constraints (db_after (create_habit db req now))"
  using assms next_rowid_fresh [of "map h_id (habits db)"]
  by (auto simp: create_habit_def insert_habit_def Let_def constraints_def checked_pairs_def)

lemma distinct_names_update:
  assumes "distinct (map h_id hs)" and "distinct (map name hs)"
    and "nm \<notin> set (map name (filter (\<lambda>x. h_id x \<noteq> hid) hs))"
  shows "distinct (map name (map (\<lambda>x. if h_id x = hid then x\<lparr>name := nm, color := col\<rparr> else x) hs))"
  using assms
proof (induction hs)
  case Nil
  then show ?case by simp
next
  case (Cons h hs)
  let ?upd = "\<lambda>x. if h_id x = hid then x\<lparr>name := nm, color := col\<rparr> else x"
  from Cons have IH: "distinct (map name (map ?upd hs))" by (auto split: if_splits)
  show ?case
  proof (cases "h_id h = hid")
    case True
    from Cons.prems(1) have "h_id h \<notin> h_id ` set hs" by simp
    with True have "\<forall>x\<in>set hs. h_id x \<noteq> hid" by (metis imageI)
    then have same: "map ?upd hs = hs" by (induction hs) auto
    from True Cons.prems(3) \<open>\<forall>x\<in>set hs. h_id x \<noteq> hid\<close> have "nm \<notin> set (map name hs)"
      by (auto simp: image_iff)
    with True IH same show ?thesis by simp
  next
    case False
    have "name h \<notin> set (map name (map ?upd hs))"
    proof
      assume "name h \<in> set (map name (map ?upd hs))"
      then obtain x where x: "x \<in> set hs" "name h = name (?upd x)" by auto
      show False
      proof (cases "h_id x = hid")
        case True
        with x have "name h = nm" by simp
        with False Cons.prems(3) show False by simp
      next
        case False
        with x have "name h = name x" by simp
        with x(1) Cons.prems(2) show False by (auto simp: image_iff)
      qed
    qed
    with False IH show ?thesis by simp
  qed
qed

lemma constraints_edit_habit:
  assumes "constraints db"
  shows "constraints (db_after (edit_habit db req hid))"
proof (cases "get_or_404 db hid")
  case (Inl r)
  with assms show ?thesis by (simp add: edit_habit_def)
next
  case (Inr H)
  have id: "h_id H = hid" using Inr
    by (auto simp: get_or_404_def find_Some_iff split: if_splits option.splits)
  let ?nm = "py_strip (form_get req ''name'' '''')"
  let ?col = "py_strip (form_get req ''color'' ''#3b82f6'')"
  have ids: "map h_id (map (\<lambda>x. if h_id x = hid then x\<lparr>name := ?nm, color := ?col\<rparr> else x) hs)
               = map h_id hs" for hs
    by (induction hs) auto
  show ?thesis
  proof (cases "?nm \<noteq> [] \<and> ?nm \<notin> set (map name (filter (\<lambda>x. h_id x \<noteq> hid) (habits db)))")
    case True
    let ?hs = "map (\<lambda>x. if h_id x = hid then x\<lparr>name := ?nm, color := ?col\<rparr> else x) (habits db)"
    from True Inr id have e: "db_after (edit_habit db req hid) = db\<lparr>habits := ?hs\<rparr>"
      by (simp add: edit_habit_def update_habit_def Let_def)
    from True have "?nm \<notin> set (map name (filter (\<lambda>x. h_id x \<noteq> hid) (habits db)))" by simp
    from distinct_names_update [OF _ _ this, of ?col] assms
    have n: "distinct (map name ?hs)" by (simp add: constraints_def)
    from assms have i: "distinct (map h_id ?hs)" unfolding ids by (simp add: constraints_def)
    from assms n i show ?thesis unfolding e
      by (simp add: constraints_def checked_pairs_def)
  next
    case False
    with assms Inr id show ?thesis
      by (auto simp: edit_habit_def update_habit_def Let_def)
  qed
qed

lemma constraints_delete_habit:
  assumes "constraints db"
  shows "constraints (db_after (delete_habit db req hid))"
  using assms
  by (auto simp: delete_habit_def delete_habit_row_def constraints_def checked_pairs_def
      distinct_map_filter split: sum.splits)

lemma constraints_toggle:
  assumes "constraints db"
  shows "constraints (db_after (toggle db req today))"
proof (cases "toggle_payload req")
  case None
  with assms show ?thesis by (simp add: toggle_def)
next
  case (Some p)
  obtain hid d where p: "p = (hid, d)" by (cases p)
  show ?thesis
  proof (cases "in_int64 hid")
    case False
    with Some p assms show ?thesis by (simp add: toggle_def)
  next
    case True
    show ?thesis
    proof (cases "(hid, d) \<in> set (checked_pairs db)")
      case mem: True
      from toggle_present [OF Some [unfolded p] True assms mem, of today]
        constraints_filter [OF assms]
      show ?thesis by simp
    next
      case False
      from toggle_absent [OF Some [unfolded p] True False, of today]
        constraints_insert [OF assms False]
      show ?thesis by simp
    qed
  qed
qed

end
